theory Spec2Isabelle
  imports Complex_Main "HOL-Library.Word"
begin

section \<open>Data model of \<open>main.cc\<close>\<close>

text \<open>
  The buffers of \<open>main.cc\<close> are raw arrays reached through pointers: a channel buffer and
  a mask are \<open>const uint8_t*\<close>, the output image is \<open>double*\<close>, and the dimensions
  \<open>W\<close>, \<open>H\<close> are C++ \<open>int\<close>. A buffer is modelled by the list of its elements; the
  length of the list is the size of the allocation, which the callee cannot see. An
  access at an index outside the list is undefined behaviour in C++ and is the result
  \<open>Inl OutOfBounds\<close> here; a signed overflow of \<open>W*H\<close> is \<open>Inl SignedOverflow\<close>;
  a failed glog \<open>CHECK\<close> aborts the program and is \<open>Inl CheckFailed\<close>. A division
  of a \<open>float\<close> by zero does not trap in C++, it yields an infinity or a NaN; the reals
  of the modelled estimator have neither, and a division by zero is \<open>Inl DivisionByZero\<close>.

  The density values are \<open>float\<close>. Nothing below depends on how \<open>float\<close> rounds: the
  value type is a type parameter \<open>'f\<close> with a multiplication \<open>*\<close> of which no law is
  assumed. The conversion of the \<open>float\<close> product to the \<open>double\<close> stored in the output
  is exact, so the output buffer holds values of the same type.
\<close>

type_synonym uint8 = "8 word"
type_synonym cint = "32 word"

datatype error = OutOfBounds | SignedOverflow | CheckFailed | DivisionByZero

text \<open>
  The memory a call of \<open>ImageProbability\<close> can reach: the three channel buffers behind
  \<open>channels\<close>, the mask buffer, and the output buffer, which is disjoint from the input
  buffers. Two further fields are logs, not program state: \<open>kde_calls\<close> holds the
  arguments of the calls of \<open>ColorChannelKDE\<close> made so far, \<open>stores\<close> the indices of
  the output buffer written so far, both in the order of the events.
\<close>

record 'f mem =
  channels :: "uint8 list list"
  mask_buf :: "uint8 list"
  outimg :: "'f list"
  kde_calls :: "(uint8 list \<times> uint8 list \<times> cint \<times> cint \<times> bool) list"
  stores :: "nat list"

text \<open>
  \<open>ColorChannelKDE(channel, mask, W, H, median_filter, &out)\<close> is declared in \<open>kde.h\<close>,
  which is not among the sources. \<open>ImageProbability\<close> takes it as a parameter: a function
  of the two buffers, the dimensions and the flag that either fails or returns the vector
  it stores through its last argument.
\<close>

type_synonym 'f kde = "uint8 list \<Rightarrow> uint8 list \<Rightarrow> cint \<Rightarrow> cint \<Rightarrow> bool \<Rightarrow> error + 'f list"

definition bind_err :: "error + 'a \<Rightarrow> ('a \<Rightarrow> error + 'b) \<Rightarrow> error + 'b" where
  "bind_err m f = (case m of Inl e \<Rightarrow> Inl e | Inr x \<Rightarrow> f x)"

text \<open>The \<open>int\<close> product \<open>W*H\<close>; overflow of a signed product is undefined behaviour.\<close>

definition mul_int :: "cint \<Rightarrow> cint \<Rightarrow> error + int" where
  "mul_int W H =
     (if - (2 ^ 31) \<le> sint W * sint H \<and> sint W * sint H < 2 ^ 31
      then Inr (sint W * sint H) else Inl SignedOverflow)"

section \<open>\<open>ImageProbability\<close>\<close>

text \<open>\<open>channels[c][i]\<close>: a read of pixel \<open>i\<close> of channel \<open>c\<close>.\<close>

definition load_channel :: "nat \<Rightarrow> nat \<Rightarrow> 'f mem \<Rightarrow> error + uint8" where
  "load_channel c i s =
     (if c < length (channels s) \<and> i < length (channels s ! c)
      then Inr (channels s ! c ! i) else Inl OutOfBounds)"

text \<open>\<open>probs[c][v]\<close>: the density of channel \<open>c\<close> indexed by an 8-bit intensity.\<close>

definition lookup_prob :: "'f list list \<Rightarrow> nat \<Rightarrow> uint8 \<Rightarrow> error + 'f" where
  "lookup_prob probs c v =
     (if c < length probs \<and> unat v < length (probs ! c)
      then Inr (probs ! c ! unat v) else Inl OutOfBounds)"

text \<open>\<open>outimg[i] = prob\<close>: a write to the output buffer, entered in the log.\<close>

definition store_out :: "nat \<Rightarrow> 'f \<Rightarrow> 'f mem \<Rightarrow> error + 'f mem" where
  "store_out i v s =
     (if i < length (outimg s)
      then Inr (s\<lparr>outimg := (outimg s)[i := v], stores := stores s @ [i]\<rparr>)
      else Inl OutOfBounds)"

text \<open>
  Lines 110 to 112: the product
  \<open>probs[0][channels[0][i]] * probs[1][channels[1][i]] * probs[2][channels[2][i]]\<close>,
  which C++ groups to the left.
\<close>

definition pixel_prob :: "('f::times) list list \<Rightarrow> nat \<Rightarrow> 'f mem \<Rightarrow> error + 'f" where
  "pixel_prob probs i s =
     bind_err (bind_err (load_channel 0 i s) (lookup_prob probs 0)) (\<lambda>p0.
     bind_err (bind_err (load_channel 1 i s) (lookup_prob probs 1)) (\<lambda>p1.
     bind_err (bind_err (load_channel 2 i s) (lookup_prob probs 2)) (\<lambda>p2.
     Inr (p0 * p1 * p2))))"

text \<open>Lines 107 to 114: \<open>for (int i = 0; i < W*H; ++i)\<close>, with \<open>n\<close> the value of \<open>W*H\<close>.\<close>

function prob_loop :: "('f::times) list list \<Rightarrow> int \<Rightarrow> nat \<Rightarrow> 'f mem \<Rightarrow> error + 'f mem" where
  "prob_loop probs n i s =
     (if int i < n
      then bind_err (pixel_prob probs i s) (\<lambda>prob.
           bind_err (store_out i prob s) (\<lambda>s'.
           prob_loop probs n (Suc i) s'))
      else Inr s)"
  by pat_completeness auto
termination
  by (relation "measure (\<lambda>(probs, n, i, s). nat (n - int i))") auto

declare prob_loop.simps [simp del]

text \<open>
  Lines 102 to 105: \<open>probs\<close> starts as three empty vectors, and iteration \<open>i\<close> passes
  \<open>channels[i]\<close>, the mask, \<open>W\<close>, \<open>H\<close> and the literal \<open>true\<close> to \<open>ColorChannelKDE\<close>,
  which fills \<open>probs[i]\<close>. Each call is entered in the log.
\<close>

function kde_loop :: "'f kde \<Rightarrow> cint \<Rightarrow> cint \<Rightarrow> nat \<Rightarrow> 'f list list \<Rightarrow> 'f mem
    \<Rightarrow> error + 'f list list \<times> 'f mem" where
  "kde_loop kde W H i probs s =
     (if i < 3
      then (if i < length (channels s)
            then bind_err (kde (channels s ! i) (mask_buf s) W H True) (\<lambda>d.
                 kde_loop kde W H (Suc i) (probs[i := d])
                   (s\<lparr>kde_calls := kde_calls s @ [(channels s ! i, mask_buf s, W, H, True)]\<rparr>))
            else Inl OutOfBounds)
      else Inr (probs, s))"
  by pat_completeness auto
termination
  by (relation "measure (\<lambda>(kde, W, H, i, probs, s). 3 - i)") auto

declare kde_loop.simps [simp del]

definition ImageProbability :: "('f::times) kde \<Rightarrow> cint \<Rightarrow> cint \<Rightarrow> 'f mem \<Rightarrow> error + 'f mem" where
  "ImageProbability kde W H s =
     bind_err (kde_loop kde W H 0 (replicate 3 []) s) (\<lambda>(probs, s1).
     bind_err (mul_int W H) (\<lambda>n.
     prob_loop probs n 0 s1))"

text \<open>
  The value line 113 stores at pixel \<open>j\<close>, written with unchecked indexing; it is used to
  state the results below.
\<close>

definition joint :: "('f::times) list list \<Rightarrow> 'f mem \<Rightarrow> nat \<Rightarrow> 'f" where
  "joint probs s j =
     probs ! 0 ! unat (channels s ! 0 ! j) * probs ! 1 ! unat (channels s ! 1 ! j)
       * probs ! 2 ! unat (channels s ! 2 ! j)"

section \<open>The dimension checks of \<open>main\<close>\<close>

text \<open>
  Of a \<open>cv::Mat\<close> the program uses \<open>cols\<close>, \<open>rows\<close> and the pixel data. Decoding the
  files, thresholding the scribbles, the colour conversion, \<open>cv::split\<close> and the
  allocation of the buffers are OpenCV's and the allocator's work; \<open>main_core\<close> takes
  their results as arguments: the decoded image, the two thresholded scribbles, the three
  planes \<open>lab\<close> of the converted image and the initial content \<open>fg_prob\<close> of the
  output buffer. What it models is lines 142 to 182: the four \<open>CHECK_EQ\<close> and, after
  them, the call of \<open>ImageProbability\<close> with the foreground scribble as mask.
\<close>

record mat =
  cols :: cint
  rows :: cint
  data :: "uint8 list"

definition CHECK_EQ :: "cint \<Rightarrow> cint \<Rightarrow> error + unit" where
  "CHECK_EQ a b = (if a = b then Inr () else Inl CheckFailed)"

definition main_core :: "('f::times) kde \<Rightarrow> mat \<Rightarrow> mat \<Rightarrow> mat \<Rightarrow> uint8 list list \<Rightarrow> 'f list
    \<Rightarrow> error + 'f mem" where
  "main_core kde img scribble_fg scribble_bg lab fg_prob =
     (let W = cols img; H = rows img in
      bind_err (CHECK_EQ (cols scribble_fg) W) (\<lambda>_.
      bind_err (CHECK_EQ (rows scribble_fg) H) (\<lambda>_.
      bind_err (CHECK_EQ (cols scribble_bg) W) (\<lambda>_.
      bind_err (CHECK_EQ (rows scribble_bg) H) (\<lambda>_.
      ImageProbability kde W H
        \<lparr>channels = lab, mask_buf = data scribble_fg, outimg = fg_prob,
         kde_calls = [], stores = []\<rparr>)))))"

section \<open>The density estimator\<close>

text \<open>
  Modelled from the spec: \<open>ColorChannelKDE\<close> is declared in \<open>kde.h\<close> and defined outside
  \<open>main.cc\<close>; neither file is among the sources. The definitions of this section follow
  section 4.1 of the specification. Step 1 builds a 256-bin count histogram: it scans
  the \<open>W*H\<close> pixels and increments bin \<open>channel[i]\<close> for every pixel \<open>i\<close> whose mask
  value is non-zero. The buffers arrive as raw pointers (the calls in \<open>main.cc\<close> pass
  \<open>const uint8_t*\<close>), so a read beyond a buffer is an out-of-bounds read.
\<close>

function histogram_loop :: "uint8 list \<Rightarrow> uint8 list \<Rightarrow> int \<Rightarrow> nat \<Rightarrow> nat list \<Rightarrow> error + nat list" where
  "histogram_loop channel msk n i hist =
     (if int i < n
      then (if i < length msk
            then (if msk ! i \<noteq> 0
                  then (if i < length channel
                        then histogram_loop channel msk n (Suc i)
                               (hist[unat (channel ! i) := Suc (hist ! unat (channel ! i))])
                        else Inl OutOfBounds)
                  else histogram_loop channel msk n (Suc i) hist)
            else Inl OutOfBounds)
      else Inr hist)"
  by pat_completeness auto
termination
  by (relation "measure (\<lambda>(channel, msk, n, i, hist). nat (n - int i))") auto

declare histogram_loop.simps [simp del]

text \<open>
  Modelled from the spec: step 3 of section 4.1 divides every bin of the (possibly
  smoothed) histogram by the total sample count. The division is checked.
\<close>

definition normalize_hist :: "real \<Rightarrow> real list \<Rightarrow> error + real list" where
  "normalize_hist samples h =
     (if samples = 0 then Inl DivisionByZero else Inr (map (\<lambda>x. x / samples) h))"

text \<open>
  Modelled from the spec: step 4 of section 4.1 leaves the density of an empty sample to a
  documented choice between the uniform distribution over the 256 values and the all-zero
  sequence.
\<close>

datatype empty_policy = Uniform | AllZero

definition empty_density :: "empty_policy \<Rightarrow> real list" where
  "empty_density policy =
     (case policy of Uniform \<Rightarrow> replicate 256 (1 / 256) | AllZero \<Rightarrow> replicate 256 0)"

text \<open>
  Modelled from the spec: the estimator of section 4.1, steps 1 to 4, absent from the
  sources as said above. The specification leaves the smoothing pass of step 2 open
  (section 9), so it is the parameter \<open>smooth\<close>, as is the policy for an empty sample.
  The total sample count is the number of sampled pixels, which is the sum of the bins
  of the count histogram.
\<close>

definition ColorChannelKDE :: "(real list \<Rightarrow> real list) \<Rightarrow> empty_policy \<Rightarrow> real kde" where
  "ColorChannelKDE smooth policy channel msk W H median_filter =
     bind_err (mul_int W H) (\<lambda>n.
     bind_err (histogram_loop channel msk n 0 (replicate 256 0)) (\<lambda>hist.
       if sum_list hist = 0 then Inr (empty_density policy)
       else normalize_hist (real (sum_list hist))
              (if median_filter then smooth (map real hist) else map real hist)))"

text \<open>
  Modelled from the spec: section 9 requires of the smoothing pass, whose code is absent
  too, that it is deterministic and preserves the sum-to-one invariant; section 3
  requires a density to have 256 entries, none negative. As the pass runs before the
  division by the sample count, it has to keep the number of bins, their sum and their
  non-negativity.
\<close>

definition smoothing_ok :: "(real list \<Rightarrow> real list) \<Rightarrow> real list \<Rightarrow> bool" where
  "smoothing_ok smooth h \<longleftrightarrow>
     length (smooth h) = length h \<and> sum_list (smooth h) = sum_list h \<and>
     (list_all (\<lambda>x. 0 \<le> x) h \<longrightarrow> list_all (\<lambda>x. 0 \<le> x) (smooth h))"

text \<open>
  An instance of the smoothing pass for the closed examples below, where a concrete pass
  is needed: every bin becomes the mean of all bins. It keeps the number, the sum and the
  sign of the bins (\<open>flat_smooth_ok\<close> below). The pass of the repository is in the absent
  code and is not claimed to be this one.
\<close>

definition flat_smooth :: "real list \<Rightarrow> real list" where
  "flat_smooth h = replicate (length h) (sum_list h / real (length h))"

text \<open>
  The pixels of \<open>i..<m\<close> that a mask samples, in scan order; used to state the results
  about the histogram.
\<close>

definition sampled :: "uint8 list \<Rightarrow> nat \<Rightarrow> nat \<Rightarrow> nat list" where
  "sampled msk i m = filter (\<lambda>j. msk ! j \<noteq> 0) [i..<m]"

section \<open>A value type with infinities and NaN\<close>

text \<open>
  The results about \<open>ImageProbability\<close> hold for any value type. To show that what C8
  asks of the multiplication is met by an arithmetic with the special values of
  \<open>float\<close>, and not only by the reals, here is such a type: finite values, the two
  infinities and NaN. A finite product beyond the largest \<open>float\<close> overflows to an
  infinity, zero times an infinity is NaN, and NaN compares with nothing. Rounding of
  finite products is not modelled.
\<close>

datatype fval = Fin real | PInf | NInf | NaN

definition fmax :: real where
  "fmax = 340282346638528859811704183484516925440"

instantiation fval :: "{times, zero, one, ord}"
begin

definition zero_fval :: fval where
  "zero_fval = Fin 0"

definition one_fval :: fval where
  "one_fval = Fin 1"

fun times_fval :: "fval \<Rightarrow> fval \<Rightarrow> fval" where
  "times_fval NaN y = NaN"
| "times_fval x NaN = NaN"
| "times_fval (Fin a) (Fin b) =
     (if fmax < a * b then PInf else if a * b < - fmax then NInf else Fin (a * b))"
| "times_fval (Fin a) PInf = (if a = 0 then NaN else if 0 < a then PInf else NInf)"
| "times_fval (Fin a) NInf = (if a = 0 then NaN else if 0 < a then NInf else PInf)"
| "times_fval PInf (Fin b) = (if b = 0 then NaN else if 0 < b then PInf else NInf)"
| "times_fval NInf (Fin b) = (if b = 0 then NaN else if 0 < b then NInf else PInf)"
| "times_fval PInf PInf = PInf"
| "times_fval PInf NInf = NInf"
| "times_fval NInf PInf = NInf"
| "times_fval NInf NInf = PInf"

fun less_eq_fval :: "fval \<Rightarrow> fval \<Rightarrow> bool" where
  "less_eq_fval NaN y = False"
| "less_eq_fval x NaN = False"
| "less_eq_fval (Fin a) (Fin b) = (a \<le> b)"
| "less_eq_fval NInf y = True"
| "less_eq_fval x PInf = True"
| "less_eq_fval PInf y = False"
| "less_eq_fval x NInf = False"

definition less_fval :: "fval \<Rightarrow> fval \<Rightarrow> bool" where
  "less_fval x y \<longleftrightarrow> x \<le> y \<and> \<not> y \<le> x"

instance ..

end

section \<open>The loops of \<open>ImageProbability\<close>\<close>

lemma unat_uint8_less: "unat (v :: uint8) < 256"
  using unsigned_less [of v, where ?'a = nat] by simp

lemma pixel_prob_ok:
  assumes "3 \<le> length (channels s)" "i < length (channels s ! 0)" "i < length (channels s ! 1)"
    "i < length (channels s ! 2)" "3 \<le> length probs" "256 \<le> length (probs ! 0)"
    "256 \<le> length (probs ! 1)" "256 \<le> length (probs ! 2)"
  shows "pixel_prob probs i s = Inr (joint probs s i)"
proof -
  have b: "\<And>v :: uint8. unat v < length (probs ! 0) \<and> unat v < length (probs ! 1) \<and> unat v < length (probs ! 2)"
    using assms(6-8) unat_uint8_less by (meson less_le_trans)
  show ?thesis
    using assms(1-5) b
    by (auto simp add: pixel_prob_def bind_err_def load_channel_def lookup_prob_def joint_def)
qed

lemma prob_loop_total:
  assumes "3 \<le> length (channels s)" "nat n \<le> length (channels s ! 0)"
    "nat n \<le> length (channels s ! 1)" "nat n \<le> length (channels s ! 2)"
    "nat n \<le> length (outimg s)"
    "3 \<le> length probs" "256 \<le> length (probs ! 0)"
    "256 \<le> length (probs ! 1)" "256 \<le> length (probs ! 2)"
  shows "prob_loop probs n i s =
     Inr (s\<lparr>outimg := map (\<lambda>j. if i \<le> j \<and> int j < n then joint probs s j else outimg s ! j)
                        [0..<length (outimg s)],
            stores := stores s @ [i..<nat n]\<rparr>)"
  using assms
proof (induction probs n i s rule: prob_loop.induct)
  case (1 probs n i s)
  show ?case
  proof (cases "int i < n")
    case False
    then have "[i..<nat n] = []" by simp
    moreover have "map (\<lambda>j. if i \<le> j \<and> int j < n then joint probs s j else outimg s ! j)
                        [0..<length (outimg s)] = outimg s"
      using False by (intro nth_equalityI) auto
    ultimately show ?thesis
      using False by (simp add: prob_loop.simps [of probs n i s])
  next
    case True
    then have iN: "i < nat n" by simp
    let ?s' = "s\<lparr>outimg := (outimg s)[i := joint probs s i], stores := stores s @ [i]\<rparr>"
    have pp: "pixel_prob probs i s = Inr (joint probs s i)"
      using "1.prems" iN by (intro pixel_prob_ok) simp_all
    have st: "store_out i (joint probs s i) s = Inr ?s'"
      using "1.prems"(5) iN by (simp add: store_out_def)
    have j: "joint probs ?s' = joint probs s"
      by (simp add: joint_def fun_eq_iff)
    have IH: "prob_loop probs n (Suc i) ?s' =
       Inr (?s'\<lparr>outimg := map (\<lambda>j. if Suc i \<le> j \<and> int j < n then joint probs ?s' j else outimg ?s' ! j)
                        [0..<length (outimg ?s')],
            stores := stores ?s' @ [Suc i..<nat n]\<rparr>)"
      using "1.prems" by (intro "1.IH" [OF True]) simp_all
    have upt: "[i..<nat n] = i # [Suc i..<nat n]"
      using iN by (simp add: upt_conv_Cons)
    have m: "map (\<lambda>j. if Suc i \<le> j \<and> int j < n then joint probs s j else (outimg s)[i := joint probs s i] ! j)
                        [0..<length (outimg s)]
           = map (\<lambda>j. if i \<le> j \<and> int j < n then joint probs s j else outimg s ! j)
                        [0..<length (outimg s)]"
    proof (rule map_cong [OF refl])
      fix j assume "j \<in> set [0..<length (outimg s)]"
      consider "j < i" | "j = i" | "Suc i \<le> j" by linarith
      then show "(if Suc i \<le> j \<and> int j < n then joint probs s j else (outimg s)[i := joint probs s i] ! j)
        = (if i \<le> j \<and> int j < n then joint probs s j else outimg s ! j)"
        using True "1.prems"(5) by cases auto
    qed
    show ?thesis
      using True pp st IH j m upt
      by (simp add: prob_loop.simps [of probs n i s] bind_err_def cong: if_cong)
  qed
qed

lemma kde_loop_done: "\<not> i < 3 \<Longrightarrow> kde_loop kde W H i probs s = Inr (probs, s)"
  by (simp add: kde_loop.simps)

lemma kde_loop_step:
  "i < 3 \<Longrightarrow> i < length (channels s) \<Longrightarrow>
   kde_loop kde W H i probs s =
     bind_err (kde (channels s ! i) (mask_buf s) W H True) (\<lambda>d.
       kde_loop kde W H (Suc i) (probs[i := d])
         (s\<lparr>kde_calls := kde_calls s @ [(channels s ! i, mask_buf s, W, H, True)]\<rparr>))"
  by (subst kde_loop.simps) simp

lemma kde_loop_three:
  assumes "3 \<le> length (channels s)"
  shows "kde_loop kde W H 0 [p0, p1, p2] s =
     bind_err (kde (channels s ! 0) (mask_buf s) W H True) (\<lambda>d0.
     bind_err (kde (channels s ! 1) (mask_buf s) W H True) (\<lambda>d1.
     bind_err (kde (channels s ! 2) (mask_buf s) W H True) (\<lambda>d2.
     Inr ([d0, d1, d2],
          s\<lparr>kde_calls := kde_calls s @
             [(channels s ! 0, mask_buf s, W, H, True),
              (channels s ! 1, mask_buf s, W, H, True),
              (channels s ! 2, mask_buf s, W, H, True)]\<rparr>))))"
proof -
  have "0 < length (channels s)" "Suc 0 < length (channels s)"
    "Suc (Suc 0) < length (channels s)"
    using assms by auto
  then show ?thesis
    by (simp add: kde_loop_step kde_loop_done numeral_2_eq_2 numeral_3_eq_3 bind_err_def
           split: sum.splits)
qed

lemma replicate_three: "replicate 3 x = [x, x, x]"
  by (simp add: numeral_3_eq_3)

lemma ImageProbability_total:
  fixes kde :: "('f::times) kde"
  assumes n: "mul_int W H = Inr n"
    and ch: "length (channels s) = 3" "\<forall>c<3. nat n \<le> length (channels s ! c)"
    and out: "nat n \<le> length (outimg s)"
    and d: "kde (channels s ! 0) (mask_buf s) W H True = Inr d0"
      "kde (channels s ! 1) (mask_buf s) W H True = Inr d1"
      "kde (channels s ! 2) (mask_buf s) W H True = Inr d2"
    and len: "length d0 = 256" "length d1 = 256" "length d2 = 256"
  shows "ImageProbability kde W H s =
     Inr (s\<lparr>outimg := map (\<lambda>j. if int j < n then joint [d0, d1, d2] s j else outimg s ! j)
                        [0..<length (outimg s)],
            kde_calls := kde_calls s @
             [(channels s ! 0, mask_buf s, W, H, True),
              (channels s ! 1, mask_buf s, W, H, True),
              (channels s ! 2, mask_buf s, W, H, True)],
            stores := stores s @ [0..<nat n]\<rparr>)"
proof -
  let ?s1 = "s\<lparr>kde_calls := kde_calls s @
             [(channels s ! 0, mask_buf s, W, H, True),
              (channels s ! 1, mask_buf s, W, H, True),
              (channels s ! 2, mask_buf s, W, H, True)]\<rparr>"
  have k: "kde_loop kde W H 0 (replicate 3 []) s = Inr ([d0, d1, d2], ?s1)"
    using ch(1) d by (simp add: replicate_three kde_loop_three bind_err_def)
  have c: "nat n \<le> length (channels s ! 0)" "nat n \<le> length (channels s ! 1)"
    "nat n \<le> length (channels s ! 2)"
    using ch(2) by simp_all
  have j: "joint [d0, d1, d2] ?s1 = joint [d0, d1, d2] s"
    by (simp add: joint_def fun_eq_iff)
  have "prob_loop [d0, d1, d2] n 0 ?s1 =
     Inr (?s1\<lparr>outimg := map (\<lambda>j. if 0 \<le> j \<and> int j < n then joint [d0, d1, d2] ?s1 j else outimg ?s1 ! j)
                        [0..<length (outimg ?s1)],
            stores := stores ?s1 @ [0..<nat n]\<rparr>)"
    using ch(1) c out len by (intro prob_loop_total) simp_all
  then show ?thesis
    using k n j by (simp add: ImageProbability_def bind_err_def cong: if_cong)
qed

lemma all_less_three: "(\<forall>c<3. P c) \<longleftrightarrow> P (0::nat) \<and> P 1 \<and> P 2"
  by (auto simp: numeral_3_eq_3 All_less_Suc numeral_2_eq_2)

lemma length_three: "length xs = 3 \<Longrightarrow> xs = [xs ! 0, xs ! 1, xs ! 2]"
  by (auto simp: numeral_3_eq_3 numeral_2_eq_2 length_Suc_conv)


lemma pixel_prob_Inl: "pixel_prob probs i s = Inl e \<Longrightarrow> e = OutOfBounds"
  by (auto simp: pixel_prob_def bind_err_def load_channel_def lookup_prob_def
           split: sum.splits if_splits)

lemma pixel_prob_Inr:
  assumes "pixel_prob probs i s = Inr p"
  shows "i < length (channels s ! 0) \<and> i < length (channels s ! 1) \<and> i < length (channels s ! 2)"
  using assms
  by (auto simp: pixel_prob_def bind_err_def load_channel_def lookup_prob_def
           split: sum.splits if_splits)

lemma store_out_Inl: "store_out i v s = Inl e \<Longrightarrow> e = OutOfBounds"
  by (auto simp: store_out_def split: if_splits)

lemma store_out_channels: "store_out i v s = Inr s' \<Longrightarrow> channels s' = channels s"
  by (auto simp: store_out_def split: if_splits)

lemma prob_loop_Inl: "prob_loop probs n i s = Inl e \<Longrightarrow> e = OutOfBounds"
proof (induction probs n i s rule: prob_loop.induct)
  case (1 probs n i s)
  from "1.prems" show ?case
    by (subst (asm) prob_loop.simps)
       (auto simp: bind_err_def split: if_splits sum.splits
             dest: pixel_prob_Inl store_out_Inl "1.IH")
qed

lemma prob_loop_Inr:
  assumes "prob_loop probs n i s = Inr s'" "i \<le> j" "int j < n" "c < 3"
  shows "j < length (channels s ! c)"
  using assms
proof (induction probs n i s rule: prob_loop.induct)
  case (1 probs n i s)
  have iN: "int i < n" using "1.prems"(2,3) by simp
  from "1.prems"(1) iN obtain p s1 where p: "pixel_prob probs i s = Inr p"
    and s1: "store_out i p s = Inr s1" and r: "prob_loop probs n (Suc i) s1 = Inr s'"
    by (subst (asm) prob_loop.simps) (auto simp: bind_err_def split: sum.splits)
  show ?case
  proof (cases "j = i")
    case True
    have "\<forall>c<3. i < length (channels s ! c)"
      using pixel_prob_Inr [OF p] by (simp add: all_less_three)
    then show ?thesis
      using True "1.prems"(4) by simp
  next
    case False
    then have "Suc i \<le> j" using "1.prems"(2) by simp
    from "1.IH" [OF iN r this "1.prems"(3,4)] store_out_channels [OF s1]
    show ?thesis by simp
  qed
qed

lemma prob_loop_short:
  assumes "c < 3" "length (channels s ! c) < nat n"
  shows "prob_loop probs n 0 s = Inl OutOfBounds"
proof (cases "prob_loop probs n 0 s")
  case (Inl e)
  then show ?thesis using prob_loop_Inl by auto
next
  case (Inr s')
  have "int (length (channels s ! c)) < n"
    using assms(2) by linarith
  from prob_loop_Inr [OF Inr _ this assms(1)]
  show ?thesis by simp
qed

section \<open>The histogram of the density estimator\<close>

lemma sampled_empty: "\<not> i < m \<Longrightarrow> sampled msk i m = []"
  by (simp add: sampled_def)

lemma sampled_step:
  "i < m \<Longrightarrow> sampled msk i m = (if msk ! i \<noteq> 0 then [i] else []) @ sampled msk (Suc i) m"
  by (simp add: sampled_def upt_conv_Cons)

lemma sum_list_bump:
  fixes hist :: "nat list"
  assumes "k < length hist"
  shows "sum_list (hist[k := Suc (hist ! k)]) = Suc (sum_list hist)"
  using assms by (simp add: sum_list_update)

lemma histogram_loop_total:
  assumes "nat n \<le> length msk"
    and "\<forall>j<nat n. msk ! j \<noteq> 0 \<longrightarrow> j < length channel"
    and "length hist = 256"
  shows "\<exists>h. histogram_loop channel msk n i hist = Inr h \<and> length h = 256 \<and>
           sum_list h = sum_list hist + length (sampled msk i (nat n))"
  using assms
proof (induction channel msk n i hist rule: histogram_loop.induct)
  case (1 channel msk n i hist)
  show ?case
  proof (cases "int i < n")
    case False
    then show ?thesis
      using "1.prems"(3) by (simp add: histogram_loop.simps [of channel msk n i] sampled_empty)
  next
    case True
    then have iN: "i < nat n" by simp
    then have im: "i < length msk" using "1.prems"(1) by simp
    show ?thesis
    proof (cases "msk ! i \<noteq> 0")
      case False
      then have "\<exists>h. histogram_loop channel msk n (Suc i) hist = Inr h \<and> length h = 256 \<and>
           sum_list h = sum_list hist + length (sampled msk (Suc i) (nat n))"
        using True im "1.prems" by (intro "1.IH"(2)) simp_all
      then show ?thesis
        using True im False iN
        by (simp add: histogram_loop.simps [of channel msk n i] sampled_step)
    next
      case sel: True
      then have ic: "i < length channel" using "1.prems"(2) iN by simp
      let ?k = "unat (channel ! i)"
      have k: "?k < length hist"
        using unat_uint8_less [of "channel ! i"] "1.prems"(3) by simp
      have "\<exists>h. histogram_loop channel msk n (Suc i) (hist[?k := Suc (hist ! ?k)]) = Inr h \<and>
           length h = 256 \<and>
           sum_list h = sum_list (hist[?k := Suc (hist ! ?k)]) + length (sampled msk (Suc i) (nat n))"
        using True im sel ic "1.prems" by (intro "1.IH"(1)) simp_all
      then show ?thesis
        using True im sel ic iN sum_list_bump [OF k]
        by (simp add: histogram_loop.simps [of channel msk n i] sampled_step)
    qed
  qed
qed

lemma histogram_loop_single:
  assumes "nat n \<le> length msk"
    and "\<forall>j<nat n. msk ! j \<noteq> 0 \<longrightarrow> j < length channel \<and> channel ! j = v"
  shows "histogram_loop channel msk n i hist =
           Inr (hist[unat v := hist ! unat v + length (sampled msk i (nat n))])"
  using assms
proof (induction channel msk n i hist rule: histogram_loop.induct)
  case (1 channel msk n i hist)
  show ?case
  proof (cases "int i < n")
    case False
    then show ?thesis
      by (simp add: histogram_loop.simps [of channel msk n i] sampled_empty)
  next
    case True
    then have iN: "i < nat n" by simp
    then have im: "i < length msk" using "1.prems"(1) by simp
    show ?thesis
    proof (cases "msk ! i \<noteq> 0")
      case False
      then have "histogram_loop channel msk n (Suc i) hist =
           Inr (hist[unat v := hist ! unat v + length (sampled msk (Suc i) (nat n))])"
        using True im "1.prems" by (intro "1.IH"(2)) simp_all
      then show ?thesis
        using True im False iN
        by (simp add: histogram_loop.simps [of channel msk n i] sampled_step)
    next
      case sel: True
      then have ic: "i < length channel" and cv: "channel ! i = v"
        using "1.prems"(2) iN by simp_all
      let ?h = "hist[unat v := Suc (hist ! unat v)]"
      have "histogram_loop channel msk n (Suc i) ?h =
           Inr (?h[unat v := ?h ! unat v + length (sampled msk (Suc i) (nat n))])"
        using "1.IH"(1) [OF True im sel ic "1.prems"] cv by simp
      moreover have "?h[unat v := ?h ! unat v + length (sampled msk (Suc i) (nat n))]
          = hist[unat v := hist ! unat v + Suc (length (sampled msk (Suc i) (nat n)))]"
        by (cases "unat v < length hist") (simp_all add: list_update_beyond)
      ultimately show ?thesis
        using True im sel ic cv iN
        by (simp add: histogram_loop.simps [of channel msk n i] sampled_step)
    qed
  qed
qed

lemma sampled_nonempty: "i < m \<Longrightarrow> msk ! i \<noteq> 0 \<Longrightarrow> sampled msk 0 m \<noteq> []"
  by (auto simp: sampled_def filter_empty_conv)

lemma sampled_none: "\<forall>j<m. msk ! j = 0 \<Longrightarrow> sampled msk i m = []"
  by (auto simp: sampled_def filter_empty_conv)

lemma sum_list_divide:
  fixes h :: "real list"
  shows "sum_list (map (\<lambda>x. x / c) h) = sum_list h / c"
  by (induction h) (simp_all add: add_divide_distrib)

lemma sum_list_real: "sum_list (map real h) = real (sum_list h)"
  by (induction h) simp_all

lemma histogram_single_value:
  assumes "nat n \<le> length channel" "nat n \<le> length msk"
    and "\<forall>i<nat n. msk ! i \<noteq> 0 \<longrightarrow> channel ! i = v"
  shows "histogram_loop channel msk n 0 (replicate 256 0) =
           Inr ((replicate 256 0)[unat v := length (sampled msk 0 (nat n))])"
proof -
  have "\<forall>j<nat n. msk ! j \<noteq> 0 \<longrightarrow> j < length channel \<and> channel ! j = v"
    using assms(1,3) by auto
  from histogram_loop_single [OF assms(2) this, of 0 "replicate 256 0"]
  show ?thesis
    using unat_uint8_less [of v] by simp
qed

lemma sum_list_spike:
  fixes c :: nat
  assumes "k < m"
  shows "sum_list ((replicate m 0)[k := c]) = c"
  using assms by (simp add: sum_list_update)

lemma ColorChannelKDE_spike:
  assumes "mul_int W H = Inr n"
    and "nat n \<le> length channel" and "nat n \<le> length msk"
    and "\<exists>i<nat n. msk ! i \<noteq> 0"
    and "\<forall>i<nat n. msk ! i \<noteq> 0 \<longrightarrow> channel ! i = v"
  shows "ColorChannelKDE smooth policy channel msk W H False =
           Inr ((replicate 256 0)[unat v := 1])"
proof -
  let ?c = "length (sampled msk 0 (nat n))"
  have h: "histogram_loop channel msk n 0 (replicate 256 0) =
             Inr ((replicate 256 0)[unat v := ?c])"
    by (rule histogram_single_value [OF assms(2,3,5)])
  have c: "?c \<noteq> 0"
    using assms(4) sampled_nonempty by auto
  have s: "sum_list ((replicate 256 0)[unat v := ?c]) = ?c"
    using unat_uint8_less [of v] by (rule sum_list_spike)
  have "map (\<lambda>x. x / real ?c) (map real ((replicate 256 0)[unat v := ?c]))
          = (replicate 256 0)[unat v := 1]"
    using c by (simp add: map_update)
  then show ?thesis
    using assms(1) h c s
    by (simp add: ColorChannelKDE_def bind_err_def normalize_hist_def del: sum_list_eq_0_iff)
qed

lemma flat_smooth_ok: "smoothing_ok flat_smooth h"
proof -
  have "sum_list (flat_smooth h) = sum_list h"
    by (cases "h = []") (simp_all add: flat_smooth_def sum_list_replicate)
  moreover have "list_all (\<lambda>x. 0 \<le> x) h \<Longrightarrow> list_all (\<lambda>x. 0 \<le> x) (flat_smooth h)"
    by (auto simp: flat_smooth_def list_all_iff intro!: divide_nonneg_nonneg sum_list_nonneg)
  ultimately show ?thesis
    by (simp add: smoothing_ok_def flat_smooth_def)
qed

lemma ColorChannelKDE_flat:
  assumes "mul_int W H = Inr n"
    and "nat n \<le> length msk"
    and "\<forall>j<nat n. msk ! j \<noteq> 0 \<longrightarrow> j < length channel"
    and "\<exists>i<nat n. msk ! i \<noteq> 0"
  shows "ColorChannelKDE flat_smooth policy channel msk W H True = Inr (replicate 256 (1 / 256))"
proof -
  from histogram_loop_total [OF assms(2,3), of "replicate 256 0" 0]
  obtain hist where h: "histogram_loop channel msk n 0 (replicate 256 0) = Inr hist"
    and len: "length hist = 256"
    and sum: "sum_list hist = length (sampled msk 0 (nat n))"
    by auto
  have c: "sum_list hist \<noteq> 0"
    using sum assms(4) sampled_nonempty by auto
  have "map (\<lambda>x. x / real (sum_list hist)) (flat_smooth (map real hist)) = replicate 256 (1 / 256)"
    using c len by (simp add: flat_smooth_def sum_list_real del: sum_list_eq_0_iff)
  then show ?thesis
    using assms(1) h c
    by (simp add: ColorChannelKDE_def bind_err_def normalize_hist_def del: sum_list_eq_0_iff)
qed

lemma mul_int_1_1: "mul_int 1 1 = Inr 1"
  by (simp add: mul_int_def)

lemma mul_int_2_1: "mul_int 2 1 = Inr 2"
  by (simp add: mul_int_def)

lemma mul_int_2_2: "mul_int 2 2 = Inr 4"
  by (simp add: mul_int_def)

lemma drop_map_upt_nth:
  "drop m (map (\<lambda>j. if int j < int m then f j else xs ! j) [0..<length xs]) = drop m xs"
  by (intro nth_equalityI) simp_all

lemma main_core_checks:
  assumes "cols scribble_fg \<noteq> cols img \<or> rows scribble_fg \<noteq> rows img \<or>
           cols scribble_bg \<noteq> cols img \<or> rows scribble_bg \<noteq> rows img"
  shows "main_core kde img scribble_fg scribble_bg lab fg_prob = Inl CheckFailed"
  using assms by (auto simp: main_core_def Let_def CHECK_EQ_def bind_err_def)

lemma ImageProbability_short:
  fixes kde :: "('f::times) kde"
  assumes n: "mul_int W H = Inr n"
    and ch: "length (channels s) = 3"
    and d: "kde (channels s ! 0) (mask_buf s) W H True = Inr d0"
      "kde (channels s ! 1) (mask_buf s) W H True = Inr d1"
      "kde (channels s ! 2) (mask_buf s) W H True = Inr d2"
    and short: "c < 3" "length (channels s ! c) < nat n"
  shows "ImageProbability kde W H s = Inl OutOfBounds"
proof -
  let ?s1 = "s\<lparr>kde_calls := kde_calls s @
             [(channels s ! 0, mask_buf s, W, H, True),
              (channels s ! 1, mask_buf s, W, H, True),
              (channels s ! 2, mask_buf s, W, H, True)]\<rparr>"
  have k: "kde_loop kde W H 0 (replicate 3 []) s = Inr ([d0, d1, d2], ?s1)"
    using ch d by (simp add: replicate_three kde_loop_three bind_err_def)
  have "prob_loop [d0, d1, d2] n 0 ?s1 = Inl OutOfBounds"
    using short by (intro prob_loop_short [of c]) simp_all
  then show ?thesis
    using k n by (simp add: ImageProbability_def bind_err_def)
qed

lemma fval_unit_interval:
  "0 \<le> x \<and> x \<le> 1 \<longleftrightarrow> (\<exists>a. x = Fin a \<and> 0 \<le> a \<and> a \<le> 1)"
  by (cases x) (auto simp: zero_fval_def one_fval_def)

lemma fval_mult_unit:
  "\<forall>a b :: fval. 0 \<le> a \<and> a \<le> 1 \<and> 0 \<le> b \<and> b \<le> 1 \<longrightarrow> 0 \<le> a * b \<and> a * b \<le> 1"
proof (intro allI impI)
  fix a b :: fval
  assume "0 \<le> a \<and> a \<le> 1 \<and> 0 \<le> b \<and> b \<le> 1"
  then obtain x y where a: "a = Fin x" "0 \<le> x" "x \<le> 1" and b: "b = Fin y" "0 \<le> y" "y \<le> 1"
    using fval_unit_interval [of a] fval_unit_interval [of b] by auto
  have "0 \<le> x * y" "x * y \<le> 1"
    using a b by (simp_all add: mult_le_one)
  moreover have "\<not> fmax < x * y" "\<not> x * y < - fmax"
    using calculation by (simp_all add: fmax_def)
  ultimately show "0 \<le> a * b \<and> a * b \<le> 1"
    using a(1) b(1) by (simp add: zero_fval_def one_fval_def)
qed

lemma fval_overflow_NaN:
  "(0::fval) \<le> Fin fmax \<and> (0::fval) \<le> Fin 2 \<and> Fin fmax * Fin 2 * 0 = NaN \<and> \<not> (0::fval) \<le> NaN"
  by (simp add: zero_fval_def fmax_def)

lemma take_map_upt_joint:
  assumes "m \<le> length xs"
  shows "take m (map (\<lambda>j. if int j < int m then f j else xs ! j) [0..<length xs]) = map f [0..<m]"
  using assms by (intro nth_equalityI) simp_all

section \<open>Claims about \<open>ImageProbability\<close>\<close>

text \<open>
  C1. For all \<open>W\<close>, \<open>H\<close> whose product \<open>n\<close> is an \<open>int\<close>, three channel buffers and
  an output buffer of at least \<open>n\<close> entries, and the three densities \<open>d0\<close>, \<open>d1\<close>,
  \<open>d2\<close> of 256 entries that the estimator returns for the channels, the call returns and
  output entry \<open>i\<close> is, for every \<open>i < n\<close>, the product
  \<open>d0[channels[0][i]] * d1[channels[1][i]] * d2[channels[2][i]]\<close>: each density is
  indexed by the raw 8-bit intensity of the pixel.
\<close>

theorem ImageProbability_joint_product:
  fixes kde :: "('f::times) kde"
  assumes "mul_int W H = Inr n"
    and "length (channels s) = 3" and "\<forall>c<3. nat n \<le> length (channels s ! c)"
    and "nat n \<le> length (outimg s)"
    and "kde (channels s ! 0) (mask_buf s) W H True = Inr d0"
    and "kde (channels s ! 1) (mask_buf s) W H True = Inr d1"
    and "kde (channels s ! 2) (mask_buf s) W H True = Inr d2"
    and "length d0 = 256" and "length d1 = 256" and "length d2 = 256"
  shows "\<exists>s'. ImageProbability kde W H s = Inr s' \<and>
           (\<forall>i<nat n. outimg s' ! i =
              d0 ! unat (channels s ! 0 ! i) * d1 ! unat (channels s ! 1 ! i)
                * d2 ! unat (channels s ! 2 ! i))"
proof (intro exI conjI allI impI)
  show "ImageProbability kde W H s =
     Inr (s\<lparr>outimg := map (\<lambda>j. if int j < n then joint [d0, d1, d2] s j else outimg s ! j)
                        [0..<length (outimg s)],
            kde_calls := kde_calls s @
             [(channels s ! 0, mask_buf s, W, H, True),
              (channels s ! 1, mask_buf s, W, H, True),
              (channels s ! 2, mask_buf s, W, H, True)],
            stores := stores s @ [0..<nat n]\<rparr>)"
    by (rule ImageProbability_total [where kde = kde and s = s, OF assms])
next
  fix i assume "i < nat n"
  then have "i < length (outimg s)" "int i < n"
    using assms(4) by simp_all
  then show "outimg (s\<lparr>outimg := map (\<lambda>j. if int j < n then joint [d0, d1, d2] s j else outimg s ! j)
                        [0..<length (outimg s)],
            kde_calls := kde_calls s @
             [(channels s ! 0, mask_buf s, W, H, True),
              (channels s ! 1, mask_buf s, W, H, True),
              (channels s ! 2, mask_buf s, W, H, True)],
            stores := stores s @ [0..<nat n]\<rparr>) ! i =
              d0 ! unat (channels s ! 0 ! i) * d1 ! unat (channels s ! 1 ! i)
                * d2 ! unat (channels s ! 2 ! i)"
    by (simp add: joint_def)
qed

theorem ImageProbability_joint_product_witness:
  "\<exists>s'. ImageProbability (ColorChannelKDE flat_smooth Uniform) 1 1
          \<lparr>channels = [[10], [20], [30]], mask_buf = [1], outimg = [0],
           kde_calls = [], stores = []\<rparr> = Inr s' \<and>
        outimg s' ! 0 = 1 / 256 * (1 / 256) * (1 / 256)"
proof -
  let ?s = "\<lparr>channels = [[10], [20], [30]], mask_buf = [1], outimg = [0::real],
             kde_calls = [], stores = []\<rparr>"
  let ?d = "replicate 256 (1 / 256 :: real)"
  have d: "ColorChannelKDE flat_smooth Uniform (channels ?s ! 0) (mask_buf ?s) 1 1 True = Inr ?d"
    "ColorChannelKDE flat_smooth Uniform (channels ?s ! 1) (mask_buf ?s) 1 1 True = Inr ?d"
    "ColorChannelKDE flat_smooth Uniform (channels ?s ! 2) (mask_buf ?s) 1 1 True = Inr ?d"
    by (simp_all add: ColorChannelKDE_flat [OF mul_int_1_1])
  have "\<exists>s'. ImageProbability (ColorChannelKDE flat_smooth Uniform) 1 1 ?s = Inr s' \<and>
           (\<forall>i<nat 1. outimg s' ! i =
              ?d ! unat (channels ?s ! 0 ! i) * ?d ! unat (channels ?s ! 1 ! i)
                * ?d ! unat (channels ?s ! 2 ! i))"
    by (rule ImageProbability_joint_product
          [where kde = "ColorChannelKDE flat_smooth Uniform" and s = ?s, OF mul_int_1_1 _ _ _ d])
       (simp_all add: all_less_three)
  then show ?thesis
    by auto
qed




text \<open>
  C5, as claimed, fails. \<open>ImageProbability\<close> receives raw buffers and one pair \<open>W\<close>,
  \<open>H\<close>; it compares no dimensions. Called with \<open>W = H = 1\<close> on channel buffers of two
  pixels and a mask of one pixel it returns normally, having used the first pixel of
  each channel only. Called with \<open>W = 2\<close>, \<open>H = 1\<close>, a mask of two pixels and a second
  channel of one pixel it reads \<open>channels[1][1]\<close> outside the buffer.
\<close>

theorem ImageProbability_dimension_counterexample:
  "ImageProbability (ColorChannelKDE flat_smooth Uniform) 1 1
     \<lparr>channels = [[10, 11], [20, 21], [30, 31]], mask_buf = [1], outimg = [0],
      kde_calls = [], stores = []\<rparr> =
   Inr \<lparr>channels = [[10, 11], [20, 21], [30, 31]], mask_buf = [1], outimg = [1 / 16777216],
        kde_calls = [([10, 11], [1], 1, 1, True), ([20, 21], [1], 1, 1, True),
                     ([30, 31], [1], 1, 1, True)],
        stores = [0]\<rparr> \<and>
   ImageProbability (ColorChannelKDE flat_smooth Uniform) 2 1
     \<lparr>channels = [[10, 11], [20], [30, 31]], mask_buf = [1, 0], outimg = [0, 0],
      kde_calls = [], stores = []\<rparr> = Inl OutOfBounds"
proof -
  let ?s = "\<lparr>channels = [[10, 11], [20, 21], [30, 31]], mask_buf = [1], outimg = [0::real],
             kde_calls = [], stores = []\<rparr>"
  let ?t = "\<lparr>channels = [[10, 11], [20], [30, 31]], mask_buf = [1, 0], outimg = [0, 0::real],
             kde_calls = [], stores = []\<rparr>"
  let ?d = "replicate 256 (1 / 256 :: real)"
  have d: "ColorChannelKDE flat_smooth Uniform (channels ?s ! 0) (mask_buf ?s) 1 1 True = Inr ?d"
    "ColorChannelKDE flat_smooth Uniform (channels ?s ! 1) (mask_buf ?s) 1 1 True = Inr ?d"
    "ColorChannelKDE flat_smooth Uniform (channels ?s ! 2) (mask_buf ?s) 1 1 True = Inr ?d"
    by (simp_all add: ColorChannelKDE_flat [OF mul_int_1_1])
  have "ImageProbability (ColorChannelKDE flat_smooth Uniform) 1 1 ?s =
     Inr (?s\<lparr>outimg := map (\<lambda>j. if int j < 1 then joint [?d, ?d, ?d] ?s j else outimg ?s ! j)
                        [0..<length (outimg ?s)],
            kde_calls := kde_calls ?s @
             [(channels ?s ! 0, mask_buf ?s, 1, 1, True),
              (channels ?s ! 1, mask_buf ?s, 1, 1, True),
              (channels ?s ! 2, mask_buf ?s, 1, 1, True)],
            stores := stores ?s @ [0..<nat 1]\<rparr>)"
    by (rule ImageProbability_total
          [where kde = "ColorChannelKDE flat_smooth Uniform" and s = ?s, OF mul_int_1_1 _ _ _ d])
       (simp_all add: all_less_three)
  then have a: "ImageProbability (ColorChannelKDE flat_smooth Uniform) 1 1 ?s =
     Inr \<lparr>channels = [[10, 11], [20, 21], [30, 31]], mask_buf = [1], outimg = [1 / 16777216],
        kde_calls = [([10, 11], [1], 1, 1, True), ([20, 21], [1], 1, 1, True),
                     ([30, 31], [1], 1, 1, True)],
        stores = [0]\<rparr>"
    by (simp add: joint_def)
  have m: "\<exists>i<nat 2. [1, 0 :: uint8] ! i \<noteq> 0"
    by (rule exI [of _ 0]) simp
  have e: "ColorChannelKDE flat_smooth Uniform (channels ?t ! 0) (mask_buf ?t) 2 1 True = Inr ?d"
    "ColorChannelKDE flat_smooth Uniform (channels ?t ! 1) (mask_buf ?t) 2 1 True = Inr ?d"
    "ColorChannelKDE flat_smooth Uniform (channels ?t ! 2) (mask_buf ?t) 2 1 True = Inr ?d"
    using m by (simp_all add: ColorChannelKDE_flat [OF mul_int_2_1] All_less_Suc eval_nat_numeral)
  have "ImageProbability (ColorChannelKDE flat_smooth Uniform) 2 1 ?t = Inl OutOfBounds"
    by (rule ImageProbability_short
          [where kde = "ColorChannelKDE flat_smooth Uniform" and s = ?t and c = 1,
           OF mul_int_2_1 _ e])
       simp_all
  with a show ?thesis by simp
qed

text \<open>
  C5, amended. \<open>ImageProbability\<close> checks no dimensions and has no dimension error.
  Given the three densities of 256 entries, it returns normally whenever every channel
  buffer and the output buffer hold at least \<open>W*H\<close> entries, whatever their own sizes,
  and it reads out of bounds when a channel buffer holds fewer than \<open>W*H\<close> entries.
  The dimension checks are those of \<open>main\<close>: when the columns or rows of a scribble
  differ from the image's, a \<open>CHECK_EQ\<close> aborts the program before \<open>ImageProbability\<close>
  is called.
\<close>

theorem ImageProbability_no_dimension_check:
  fixes kde :: "('f::times) kde"
  assumes "mul_int W H = Inr n"
    and "length (channels s) = 3"
    and "kde (channels s ! 0) (mask_buf s) W H True = Inr d0"
    and "kde (channels s ! 1) (mask_buf s) W H True = Inr d1"
    and "kde (channels s ! 2) (mask_buf s) W H True = Inr d2"
    and "length d0 = 256" and "length d1 = 256" and "length d2 = 256"
  shows "((\<forall>c<3. nat n \<le> length (channels s ! c)) \<and> nat n \<le> length (outimg s) \<longrightarrow>
            (\<exists>s'. ImageProbability kde W H s = Inr s')) \<and>
         ((\<exists>c<3. length (channels s ! c) < nat n) \<longrightarrow>
            ImageProbability kde W H s = Inl OutOfBounds) \<and>
         (cols scribble_fg \<noteq> cols img \<or> rows scribble_fg \<noteq> rows img \<or>
          cols scribble_bg \<noteq> cols img \<or> rows scribble_bg \<noteq> rows img \<longrightarrow>
            main_core kde img scribble_fg scribble_bg lab fg_prob = Inl CheckFailed)"
proof (intro conjI impI)
  assume "(\<forall>c<3. nat n \<le> length (channels s ! c)) \<and> nat n \<le> length (outimg s)"
  then show "\<exists>s'. ImageProbability kde W H s = Inr s'"
    using ImageProbability_total [where kde = kde and s = s, OF assms(1,2) _ _ assms(3-8)]
    by simp
next
  assume "\<exists>c<3. length (channels s ! c) < nat n"
  then show "ImageProbability kde W H s = Inl OutOfBounds"
    using ImageProbability_short [where kde = kde and s = s, OF assms(1-5)] by blast
next
  assume "cols scribble_fg \<noteq> cols img \<or> rows scribble_fg \<noteq> rows img \<or>
          cols scribble_bg \<noteq> cols img \<or> rows scribble_bg \<noteq> rows img"
  then show "main_core kde img scribble_fg scribble_bg lab fg_prob = Inl CheckFailed"
    by (rule main_core_checks)
qed

theorem ImageProbability_no_dimension_check_witness:
  "(\<exists>s'. ImageProbability (ColorChannelKDE flat_smooth Uniform) 1 1
           \<lparr>channels = [[10, 11], [20, 21], [30, 31]], mask_buf = [1], outimg = [0],
            kde_calls = [], stores = []\<rparr> = Inr s') \<and>
   ImageProbability (ColorChannelKDE flat_smooth Uniform) 2 1
     \<lparr>channels = [[10, 11], [20], [30, 31]], mask_buf = [1, 0], outimg = [0, 0],
      kde_calls = [], stores = []\<rparr> = Inl OutOfBounds \<and>
   main_core (ColorChannelKDE flat_smooth Uniform)
     \<lparr>cols = 2, rows = 1, data = []\<rparr> \<lparr>cols = 1, rows = 1, data = [1]\<rparr>
     \<lparr>cols = 2, rows = 1, data = [0, 1]\<rparr> [[10, 11], [20, 21], [30, 31]] [0, 0] =
     Inl CheckFailed"
proof -
  let ?s = "\<lparr>channels = [[10, 11], [20, 21], [30, 31]], mask_buf = [1], outimg = [0::real],
             kde_calls = [], stores = []\<rparr>"
  let ?t = "\<lparr>channels = [[10, 11], [20], [30, 31]], mask_buf = [1, 0], outimg = [0, 0::real],
             kde_calls = [], stores = []\<rparr>"
  let ?d = "replicate 256 (1 / 256 :: real)"
  have d: "ColorChannelKDE flat_smooth Uniform (channels ?s ! 0) (mask_buf ?s) 1 1 True = Inr ?d"
    "ColorChannelKDE flat_smooth Uniform (channels ?s ! 1) (mask_buf ?s) 1 1 True = Inr ?d"
    "ColorChannelKDE flat_smooth Uniform (channels ?s ! 2) (mask_buf ?s) 1 1 True = Inr ?d"
    by (simp_all add: ColorChannelKDE_flat [OF mul_int_1_1])
  have m: "\<exists>i<nat 2. [1, 0 :: uint8] ! i \<noteq> 0"
    by (rule exI [of _ 0]) simp
  have e: "ColorChannelKDE flat_smooth Uniform (channels ?t ! 0) (mask_buf ?t) 2 1 True = Inr ?d"
    "ColorChannelKDE flat_smooth Uniform (channels ?t ! 1) (mask_buf ?t) 2 1 True = Inr ?d"
    "ColorChannelKDE flat_smooth Uniform (channels ?t ! 2) (mask_buf ?t) 2 1 True = Inr ?d"
    using m by (simp_all add: ColorChannelKDE_flat [OF mul_int_2_1] All_less_Suc eval_nat_numeral)
  have l: "length ?d = 256" by simp
  have short: "\<exists>c<3. length (channels ?t ! c) < nat 2"
    by (rule exI [of _ 1]) simp
  from ImageProbability_no_dimension_check
     [where kde = "ColorChannelKDE flat_smooth Uniform" and s = ?s, OF mul_int_1_1 _ d l l l]
  have a: "\<exists>s'. ImageProbability (ColorChannelKDE flat_smooth Uniform) 1 1 ?s = Inr s'"
    by (simp add: all_less_three)
  from ImageProbability_no_dimension_check
     [where kde = "ColorChannelKDE flat_smooth Uniform" and s = ?t
        and img = "\<lparr>cols = 2, rows = 1, data = []\<rparr>"
        and scribble_fg = "\<lparr>cols = 1, rows = 1, data = [1]\<rparr>"
        and scribble_bg = "\<lparr>cols = 2, rows = 1, data = [0, 1]\<rparr>"
        and lab = "[[10, 11], [20, 21], [30, 31]]" and fg_prob = "[0, 0]",
      OF mul_int_2_1 _ e l l l] short
  have b: "ImageProbability (ColorChannelKDE flat_smooth Uniform) 2 1 ?t = Inl OutOfBounds \<and>
    main_core (ColorChannelKDE flat_smooth Uniform)
     \<lparr>cols = 2, rows = 1, data = []\<rparr> \<lparr>cols = 1, rows = 1, data = [1]\<rparr>
     \<lparr>cols = 2, rows = 1, data = [0, 1]\<rparr> [[10, 11], [20, 21], [30, 31]] [0, 0] =
     Inl CheckFailed"
    by simp
  from a b show ?thesis by simp
qed

text \<open>
  C7. On a valid input, \<open>ImageProbability\<close> calls the estimator exactly three times, once
  for the buffer of each channel in order and every time with the same mask (and \<open>W\<close>,
  \<open>H\<close>, \<open>true\<close>), as its call log shows; and the three densities these calls return
  are the ones its output is computed from: entry \<open>j < W*H\<close> is the product of \<open>d0\<close>,
  \<open>d1\<close>, \<open>d2\<close> at the intensities of pixel \<open>j\<close>, where \<open>dc\<close> is the estimator's
  result for channel \<open>c\<close> and the mask.
\<close>

theorem ImageProbability_per_channel_densities:
  fixes kde :: "('f::times) kde"
  assumes "mul_int W H = Inr n"
    and "length (channels s) = 3" and "\<forall>c<3. nat n \<le> length (channels s ! c)"
    and "nat n \<le> length (outimg s)"
    and "kde (channels s ! 0) (mask_buf s) W H True = Inr d0"
    and "kde (channels s ! 1) (mask_buf s) W H True = Inr d1"
    and "kde (channels s ! 2) (mask_buf s) W H True = Inr d2"
    and "length d0 = 256" and "length d1 = 256" and "length d2 = 256"
  shows "ImageProbability kde W H s =
     Inr (s\<lparr>outimg := map (\<lambda>j. if int j < n then joint [d0, d1, d2] s j else outimg s ! j)
                        [0..<length (outimg s)],
            kde_calls := kde_calls s @
             [(channels s ! 0, mask_buf s, W, H, True),
              (channels s ! 1, mask_buf s, W, H, True),
              (channels s ! 2, mask_buf s, W, H, True)],
            stores := stores s @ [0..<nat n]\<rparr>)"
  by (rule ImageProbability_total [where kde = kde and s = s, OF assms])

theorem ImageProbability_per_channel_densities_witness:
  "ImageProbability (ColorChannelKDE flat_smooth Uniform) 2 1
     \<lparr>channels = [[10, 11], [20, 21], [30, 31]], mask_buf = [0, 1], outimg = [5, 5],
      kde_calls = [], stores = []\<rparr> =
   Inr \<lparr>channels = [[10, 11], [20, 21], [30, 31]], mask_buf = [0, 1],
        outimg = [1 / 16777216, 1 / 16777216],
        kde_calls = [([10, 11], [0, 1], 2, 1, True), ([20, 21], [0, 1], 2, 1, True),
                     ([30, 31], [0, 1], 2, 1, True)],
        stores = [0, 1]\<rparr>"
proof -
  let ?s = "\<lparr>channels = [[10, 11], [20, 21], [30, 31]], mask_buf = [0, 1], outimg = [5, 5::real],
             kde_calls = [], stores = []\<rparr>"
  let ?d = "replicate 256 (1 / 256 :: real)"
  have m: "\<exists>i<nat 2. [0, 1 :: uint8] ! i \<noteq> 0"
    by (rule exI [of _ 1]) simp
  have d: "ColorChannelKDE flat_smooth Uniform (channels ?s ! 0) (mask_buf ?s) 2 1 True = Inr ?d"
    "ColorChannelKDE flat_smooth Uniform (channels ?s ! 1) (mask_buf ?s) 2 1 True = Inr ?d"
    "ColorChannelKDE flat_smooth Uniform (channels ?s ! 2) (mask_buf ?s) 2 1 True = Inr ?d"
    using m by (simp_all add: ColorChannelKDE_flat [OF mul_int_2_1] All_less_Suc eval_nat_numeral)
  have l: "length ?d = 256"
    by simp
  have "ImageProbability (ColorChannelKDE flat_smooth Uniform) 2 1 ?s =
     Inr (?s\<lparr>outimg := map (\<lambda>j. if int j < 2 then joint [?d, ?d, ?d] ?s j else outimg ?s ! j)
                        [0..<length (outimg ?s)],
            kde_calls := kde_calls ?s @
             [(channels ?s ! 0, mask_buf ?s, 2, 1, True),
              (channels ?s ! 1, mask_buf ?s, 2, 1, True),
              (channels ?s ! 2, mask_buf ?s, 2, 1, True)],
            stores := stores ?s @ [0..<nat 2]\<rparr>)"
    by (rule ImageProbability_per_channel_densities
          [where kde = "ColorChannelKDE flat_smooth Uniform" and s = ?s,
           OF mul_int_2_1 _ _ _ d l l l])
       (simp_all add: all_less_three)
  then show ?thesis
    by (simp add: joint_def upt_rec)
qed

text \<open>
  C8. For every valid input the call returns, it writes exactly the \<open>W*H\<close> entries
  \<open>0, ..., W*H - 1\<close> of the output buffer, these entries are, in this order, the values
  computed from pixels \<open>0, ..., W*H - 1\<close> of the channel buffers, each of them is
  non-negative, and the buffer keeps its length. Valid means: \<open>W*H\<close> is an \<open>int\<close>, the
  buffers hold at least \<open>W*H\<close> entries, and the estimator returns densities of 256
  entries between 0 and 1, as the entries of a probability mass function are. Of the
  multiplication it is used that a product of two values between 0 and 1 lies between 0
  and 1. With infinities and NaN the product of two non-negative values need not be
  non-negative (\<open>fval_overflow_NaN\<close>), which is why the bound 1 is part of the
  hypotheses; the witness is on the type with infinities and NaN.
\<close>

theorem ImageProbability_shape_nonneg:
  fixes kde :: "('f::{times,zero,one,ord}) kde"
  assumes "mul_int W H = Inr n"
    and "length (channels s) = 3" and "\<forall>c<3. nat n \<le> length (channels s ! c)"
    and "nat n \<le> length (outimg s)"
    and "kde (channels s ! 0) (mask_buf s) W H True = Inr d0"
    and "kde (channels s ! 1) (mask_buf s) W H True = Inr d1"
    and "kde (channels s ! 2) (mask_buf s) W H True = Inr d2"
    and "length d0 = 256" and "length d1 = 256" and "length d2 = 256"
    and "list_all (\<lambda>x. 0 \<le> x \<and> x \<le> 1) d0" and "list_all (\<lambda>x. 0 \<le> x \<and> x \<le> 1) d1"
    and "list_all (\<lambda>x. 0 \<le> x \<and> x \<le> 1) d2"
    and "\<forall>a b :: 'f. 0 \<le> a \<and> a \<le> 1 \<and> 0 \<le> b \<and> b \<le> 1 \<longrightarrow> 0 \<le> a * b \<and> a * b \<le> 1"
  shows "\<exists>s'. ImageProbability kde W H s = Inr s' \<and>
           stores s' = stores s @ [0..<nat n] \<and>
           take (nat n) (outimg s') = map (joint [d0, d1, d2] s) [0..<nat n] \<and>
           list_all (\<lambda>x. 0 \<le> x) (take (nat n) (outimg s')) \<and>
           length (outimg s') = length (outimg s)"
proof -
  let ?s' = "s\<lparr>outimg := map (\<lambda>j. if int j < n then joint [d0, d1, d2] s j else outimg s ! j)
                        [0..<length (outimg s)],
            kde_calls := kde_calls s @
             [(channels s ! 0, mask_buf s, W, H, True),
              (channels s ! 1, mask_buf s, W, H, True),
              (channels s ! 2, mask_buf s, W, H, True)],
            stores := stores s @ [0..<nat n]\<rparr>"
  have r: "ImageProbability kde W H s = Inr ?s'"
    by (rule ImageProbability_total [where kde = kde and s = s, OF assms(1-10)])
  have u: "0 \<le> d0 ! unat v \<and> d0 ! unat v \<le> 1" "0 \<le> d1 ! unat v \<and> d1 ! unat v \<le> 1"
    "0 \<le> d2 ! unat v \<and> d2 ! unat v \<le> 1" for v :: uint8
    using assms(8-13) unat_uint8_less [of v] by (simp_all add: list_all_length)
  have nn: "0 \<le> joint [d0, d1, d2] s i" for i
  proof -
    let ?a = "d0 ! unat (channels s ! 0 ! i)" and ?b = "d1 ! unat (channels s ! 1 ! i)"
      and ?c = "d2 ! unat (channels s ! 2 ! i)"
    have "0 \<le> ?a * ?b \<and> ?a * ?b \<le> 1"
      using u(1) [of "channels s ! 0 ! i"] u(2) [of "channels s ! 1 ! i"] assms(14) by blast
    then have "0 \<le> ?a * ?b * ?c \<and> ?a * ?b * ?c \<le> 1"
      using u(3) [of "channels s ! 2 ! i"] assms(14) by blast
    then show ?thesis by (simp add: joint_def)
  qed
  have "int j < n \<longleftrightarrow> int j < int (nat n)" for j
    by auto
  then have t: "take (nat n) (outimg ?s') = map (joint [d0, d1, d2] s) [0..<nat n]"
    using take_map_upt_joint [OF assms(4), of "joint [d0, d1, d2] s"] by simp
  have "list_all (\<lambda>x. 0 \<le> x) (take (nat n) (outimg ?s'))"
    unfolding t using nn by (simp add: list_all_iff)
  with r t show ?thesis
    by (intro exI [of _ ?s']) simp
qed

theorem ImageProbability_shape_nonneg_witness:
  "\<exists>s'. ImageProbability
          (\<lambda>c m w h b. map_sum id (map Fin) (ColorChannelKDE flat_smooth Uniform c m w h b)) 2 1
          \<lparr>channels = [[10, 11], [20, 21], [30, 31]], mask_buf = [1, 0], outimg = [NaN, NaN, NaN],
           kde_calls = [], stores = []\<rparr> = Inr s' \<and>
        stores s' = [0, 1] \<and>
        take 2 (outimg s') = [Fin (1 / 16777216), Fin (1 / 16777216)] \<and>
        list_all (\<lambda>x. 0 \<le> x) (take 2 (outimg s')) \<and> length (outimg s') = 3"
proof -
  let ?kde = "\<lambda>c m w h b. map_sum id (map Fin) (ColorChannelKDE flat_smooth Uniform c m w h b)"
  let ?s = "\<lparr>channels = [[10, 11], [20, 21], [30, 31]], mask_buf = [1, 0],
             outimg = [NaN, NaN, NaN], kde_calls = [], stores = []\<rparr>"
  let ?d = "replicate 256 (Fin (1 / 256))"
  have m: "\<exists>i<nat 2. [1, 0 :: uint8] ! i \<noteq> 0"
    by (rule exI [of _ 0]) simp
  have d: "?kde (channels ?s ! 0) (mask_buf ?s) 2 1 True = Inr ?d"
    "?kde (channels ?s ! 1) (mask_buf ?s) 2 1 True = Inr ?d"
    "?kde (channels ?s ! 2) (mask_buf ?s) 2 1 True = Inr ?d"
    using m by (simp_all add: ColorChannelKDE_flat [OF mul_int_2_1] All_less_Suc eval_nat_numeral)
  have l: "length ?d = 256"
    by simp
  have p: "list_all (\<lambda>x. 0 \<le> x \<and> x \<le> 1) ?d"
    by (simp add: list_all_iff zero_fval_def one_fval_def)
  have "\<exists>s'. ImageProbability ?kde 2 1 ?s = Inr s' \<and>
           stores s' = stores ?s @ [0..<nat 2] \<and>
           take (nat 2) (outimg s') = map (joint [?d, ?d, ?d] ?s) [0..<nat 2] \<and>
           list_all (\<lambda>x. 0 \<le> x) (take (nat 2) (outimg s')) \<and>
           length (outimg s') = length (outimg ?s)"
    by (rule ImageProbability_shape_nonneg
          [where kde = ?kde and s = ?s, OF mul_int_2_1 _ _ _ d l l l p p p fval_mult_unit])
       (simp_all add: all_less_three)
  then obtain s' where "ImageProbability ?kde 2 1 ?s = Inr s'"
    and "stores s' = stores ?s @ [0..<nat 2]"
    and "take (nat 2) (outimg s') = map (joint [?d, ?d, ?d] ?s) [0..<nat 2]"
    and "list_all (\<lambda>x. 0 \<le> x) (take (nat 2) (outimg s'))"
    and "length (outimg s') = length (outimg ?s)"
    by blast
  then show ?thesis
    by (intro exI [of _ s']) (simp add: upt_rec joint_def fmax_def)
qed

text \<open>
  C10. On a valid input the call returns with the channel buffers and the mask holding
  the values they held before, the output buffer of the same length with its entries
  from \<open>W*H\<close> on unchanged, and the log of writes extended by the indices
  \<open>0, 1, ..., W*H - 1\<close>: each of the first \<open>W*H\<close> entries is written exactly once, and
  nothing else is written.
\<close>

theorem ImageProbability_frame:
  fixes kde :: "('f::times) kde"
  assumes "mul_int W H = Inr n"
    and "length (channels s) = 3" and "\<forall>c<3. nat n \<le> length (channels s ! c)"
    and "nat n \<le> length (outimg s)"
    and "kde (channels s ! 0) (mask_buf s) W H True = Inr d0"
    and "kde (channels s ! 1) (mask_buf s) W H True = Inr d1"
    and "kde (channels s ! 2) (mask_buf s) W H True = Inr d2"
    and "length d0 = 256" and "length d1 = 256" and "length d2 = 256"
  shows "\<exists>s'. ImageProbability kde W H s = Inr s' \<and>
           channels s' = channels s \<and> mask_buf s' = mask_buf s \<and>
           length (outimg s') = length (outimg s) \<and>
           drop (nat n) (outimg s') = drop (nat n) (outimg s) \<and>
           stores s' = stores s @ [0..<nat n]"
proof -
  have "int j < n \<longleftrightarrow> int j < int (nat n)" for j
    by auto
  then have "drop (nat n) (map (\<lambda>j. if int j < n then joint [d0, d1, d2] s j else outimg s ! j)
                        [0..<length (outimg s)]) = drop (nat n) (outimg s)"
    using drop_map_upt_nth [of "nat n" "joint [d0, d1, d2] s" "outimg s"] by simp
  then show ?thesis
    by (simp add: ImageProbability_total [where kde = kde and s = s, OF assms])
qed

theorem ImageProbability_frame_witness:
  "\<exists>s'. ImageProbability (ColorChannelKDE flat_smooth Uniform) 2 1
          \<lparr>channels = [[10, 11], [20, 21], [30, 31]], mask_buf = [1, 0], outimg = [7, 7, 7],
           kde_calls = [], stores = []\<rparr> = Inr s' \<and>
        channels s' = [[10, 11], [20, 21], [30, 31]] \<and> mask_buf s' = [1, 0] \<and>
        length (outimg s') = 3 \<and> drop 2 (outimg s') = [7] \<and> stores s' = [0, 1]"
proof -
  let ?s = "\<lparr>channels = [[10, 11], [20, 21], [30, 31]], mask_buf = [1, 0], outimg = [7, 7, 7::real],
             kde_calls = [], stores = []\<rparr>"
  let ?d = "replicate 256 (1 / 256 :: real)"
  have m: "\<exists>i<nat 2. [1, 0 :: uint8] ! i \<noteq> 0"
    by (rule exI [of _ 0]) simp
  have d: "ColorChannelKDE flat_smooth Uniform (channels ?s ! 0) (mask_buf ?s) 2 1 True = Inr ?d"
    "ColorChannelKDE flat_smooth Uniform (channels ?s ! 1) (mask_buf ?s) 2 1 True = Inr ?d"
    "ColorChannelKDE flat_smooth Uniform (channels ?s ! 2) (mask_buf ?s) 2 1 True = Inr ?d"
    using m by (simp_all add: ColorChannelKDE_flat [OF mul_int_2_1] All_less_Suc eval_nat_numeral)
  have l: "length ?d = 256"
    by simp
  have "\<exists>s'. ImageProbability (ColorChannelKDE flat_smooth Uniform) 2 1 ?s = Inr s' \<and>
           channels s' = channels ?s \<and> mask_buf s' = mask_buf ?s \<and>
           length (outimg s') = length (outimg ?s) \<and>
           drop (nat 2) (outimg s') = drop (nat 2) (outimg ?s) \<and>
           stores s' = stores ?s @ [0..<nat 2]"
    by (rule ImageProbability_frame
          [where kde = "ColorChannelKDE flat_smooth Uniform" and s = ?s,
           OF mul_int_2_1 _ _ _ d l l l])
       (simp_all add: all_less_three)
  then obtain s' where "ImageProbability (ColorChannelKDE flat_smooth Uniform) 2 1 ?s = Inr s'"
    and "channels s' = channels ?s" and "mask_buf s' = mask_buf ?s"
    and "length (outimg s') = length (outimg ?s)"
    and "drop (nat 2) (outimg s') = drop (nat 2) (outimg ?s)"
    and "stores s' = stores ?s @ [0..<nat 2]"
    by blast
  then show ?thesis
    by (intro exI [of _ s']) (simp add: upt_rec)
qed

section \<open>Claims about the density estimator\<close>

text \<open>
  C2. For every input whose buffers hold the \<open>W*H\<close> pixels, the estimator returns a
  density of exactly 256 entries, none negative; its entries sum to 1 whenever the mask
  samples a pixel, and also for an empty sample under the uniform policy. With the flag
  set this needs the smoothing pass to keep the number, sum and sign of the bins.
\<close>

theorem ColorChannelKDE_density:
  assumes "mul_int W H = Inr n"
    and "nat n \<le> length channel" and "nat n \<le> length msk"
    and "median_filter \<longrightarrow> (\<forall>h. smoothing_ok smooth h)"
  shows "\<exists>d. ColorChannelKDE smooth policy channel msk W H median_filter = Inr d \<and>
           length d = 256 \<and> list_all (\<lambda>x. 0 \<le> x) d \<and>
           ((\<exists>i<nat n. msk ! i \<noteq> 0) \<or> policy = Uniform \<longrightarrow> sum_list d = 1)"
proof -
  have "\<forall>j<nat n. msk ! j \<noteq> 0 \<longrightarrow> j < length channel"
    using assms(2) by auto
  from histogram_loop_total [OF assms(3) this, of "replicate 256 0" 0]
  obtain hist where h: "histogram_loop channel msk n 0 (replicate 256 0) = Inr hist"
    and len: "length hist = 256"
    and sum: "sum_list hist = length (sampled msk 0 (nat n))"
    by auto
  show ?thesis
  proof (cases "sum_list hist = 0")
    case True
    then have none: "\<not> (\<exists>i<nat n. msk ! i \<noteq> 0)"
      using sum sampled_nonempty by fastforce
    have "ColorChannelKDE smooth policy channel msk W H median_filter = Inr (empty_density policy)"
      using assms(1) h True
      by (simp add: ColorChannelKDE_def bind_err_def del: sum_list_eq_0_iff)
    moreover have "length (empty_density policy) = 256"
      and "list_all (\<lambda>x. 0 \<le> x) (empty_density policy)"
      by (cases policy; simp add: empty_density_def list_all_iff)+
    moreover have "policy = Uniform \<Longrightarrow> sum_list (empty_density policy) = 1"
      by (simp add: empty_density_def sum_list_replicate)
    ultimately show ?thesis
      using none by auto
  next
    case False
    let ?raw = "map real hist"
    let ?g = "if median_filter then smooth ?raw else ?raw"
    have raw: "length ?raw = 256" "sum_list ?raw = real (sum_list hist)"
      "list_all (\<lambda>x. 0 \<le> x) ?raw"
      using len by (simp_all add: sum_list_real list_all_iff)
    have g: "length ?g = 256 \<and> sum_list ?g = real (sum_list hist) \<and> list_all (\<lambda>x. 0 \<le> x) ?g"
    proof (cases median_filter)
      case True
      then have "smoothing_ok smooth ?raw" using assms(4) by simp
      then show ?thesis using True raw by (simp add: smoothing_ok_def)
    next
      case False
      then show ?thesis using raw by simp
    qed
    let ?d = "map (\<lambda>x. x / real (sum_list hist)) ?g"
    have "ColorChannelKDE smooth policy channel msk W H median_filter = Inr ?d"
      using assms(1) h False
      by (simp add: ColorChannelKDE_def bind_err_def normalize_hist_def del: sum_list_eq_0_iff)
    moreover have "length ?d = 256" using g by simp
    moreover have "list_all (\<lambda>x. 0 \<le> x) ?d"
      using g by (auto simp: list_all_iff)
    moreover have "sum_list ?d = 1"
      using g False by (simp add: sum_list_divide)
    ultimately show ?thesis by blast
  qed
qed

theorem ColorChannelKDE_density_witness:
  "\<exists>d. ColorChannelKDE flat_smooth AllZero [0, 0, 255, 255] [1, 1, 0, 0] 2 2 True = Inr d \<and>
        length d = 256 \<and> list_all (\<lambda>x. 0 \<le> x) d \<and> sum_list d = 1"
proof -
  have "\<exists>i<nat 4. [1, 1, 0, 0 :: uint8] ! i \<noteq> 0"
    by (rule exI [of _ 0]) simp
  with ColorChannelKDE_density [OF mul_int_2_2, of "[0, 0, 255, 255]" "[1, 1, 0, 0]" True
      flat_smooth AllZero]
  show ?thesis
    by (simp add: flat_smooth_ok)
qed

text \<open>
  C4. When the mask samples no pixel, the estimator divides nothing by zero and returns
  256 entries, all \<open>1/256\<close> under the uniform policy and all zero under the all-zero
  policy; the call does not fail, whatever the flag and the channel buffer.
\<close>

theorem ColorChannelKDE_empty_sample:
  assumes "mul_int W H = Inr n"
    and "nat n \<le> length msk"
    and "\<forall>i<nat n. msk ! i = 0"
  shows "ColorChannelKDE smooth policy channel msk W H median_filter =
           Inr (replicate 256 (case policy of Uniform \<Rightarrow> 1 / 256 | AllZero \<Rightarrow> 0))"
proof -
  have "\<forall>j<nat n. msk ! j \<noteq> 0 \<longrightarrow> j < length channel"
    using assms(3) by simp
  from histogram_loop_total [OF assms(2) this, of "replicate 256 0" 0]
  obtain hist where h: "histogram_loop channel msk n 0 (replicate 256 0) = Inr hist"
    and sum: "sum_list hist = length (sampled msk 0 (nat n))"
    by auto
  have "sum_list hist = 0"
    using sum sampled_none [OF assms(3)] by simp
  then show ?thesis
    using assms(1) h
    by (cases policy)
       (simp_all add: ColorChannelKDE_def bind_err_def empty_density_def del: sum_list_eq_0_iff)
qed

theorem ColorChannelKDE_empty_sample_witness:
  "ColorChannelKDE flat_smooth AllZero [0, 0, 255, 255] [0, 0, 0, 0] 2 2 True =
     Inr (replicate 256 0)"
proof -
  have "\<forall>i<nat 4. [0, 0, 0, 0 :: uint8] ! i = 0"
    by (simp add: eval_nat_numeral All_less_Suc)
  from ColorChannelKDE_empty_sample [OF mul_int_2_2 _ this, of flat_smooth AllZero "[0, 0, 255, 255]" True]
  show ?thesis
    by simp
qed

text \<open>
  C6. With the flag off, when the mask samples at least one pixel and every sampled pixel
  has the channel value \<open>v\<close>, the density is 1 at bin \<open>v\<close> and 0 at every other bin.
\<close>

theorem ColorChannelKDE_single_value:
  assumes "mul_int W H = Inr n"
    and "nat n \<le> length channel" and "nat n \<le> length msk"
    and "\<exists>i<nat n. msk ! i \<noteq> 0"
    and "\<forall>i<nat n. msk ! i \<noteq> 0 \<longrightarrow> channel ! i = v"
  shows "ColorChannelKDE smooth policy channel msk W H False =
           Inr ((replicate 256 0)[unat v := 1])"
  using assms by (rule ColorChannelKDE_spike)

theorem ColorChannelKDE_single_value_witness:
  "ColorChannelKDE flat_smooth AllZero [0, 0, 255, 255] [1, 1, 0, 0] 2 2 False =
     Inr ((replicate 256 0)[0 := 1])"
proof -
  have b: "nat 4 \<le> length [0, 0, 255, 255 :: uint8]" "nat 4 \<le> length [1, 1, 0, 0 :: uint8]"
    by simp_all
  have c: "\<exists>i<nat 4. [1, 1, 0, 0 :: uint8] ! i \<noteq> 0"
    by (rule exI [of _ 0]) simp
  have d: "\<forall>i<nat 4. [1, 1, 0, 0 :: uint8] ! i \<noteq> 0 \<longrightarrow> [0, 0, 255, 255 :: uint8] ! i = 0"
    by (simp add: eval_nat_numeral All_less_Suc)
  from ColorChannelKDE_single_value [OF mul_int_2_2 b c d, of flat_smooth AllZero]
  show ?thesis by simp
qed

end
